theory Spec2Isabelle
  imports Main "HOL-Library.Word"
begin

section \<open>The watchdog stretch experiment of \<open>oppimistehtava2.ino\<close>\<close>

text \<open>
  The sketch measures how long the ESP32 task watchdog tolerates a missing feed. Its
  state machine lives in \<open>gRtc\<close>, a record in RTC memory that survives a watchdog
  reset; everything else is ordinary RAM and starts from its initialiser at every boot.

  All counters and timestamps of the sketch are \<open>uint32_t\<close>: they are modelled as
  32-bit words, so \<open>+\<close> and \<open>-\<close> wrap exactly as the C++ does.

  Console output (\<open>Serial\<close>), \<open>delay\<close> and the driver calls that switch the
  watchdog on and off (\<open>wdtEnable\<close>, \<open>wdtDisable\<close>) write no variable of the
  program (the one caller of \<open>wdtEnable\<close> that could see its result discards it),
  so they do not appear in the state transformers below.
\<close>

type_synonym u32 = "32 word"

subsection \<open>Tuning knobs\<close>

definition kFeedIntervalMs :: u32 where "kFeedIntervalMs = 1000"
definition kDisableWindowMs :: u32 where "kDisableWindowMs = 30000"
definition kStatusPrintIntervalMs :: u32 where "kStatusPrintIntervalMs = 5000"
definition kMinFeedCount :: u32 where "kMinFeedCount = 6"

definition kStretchStartMs :: u32 where "kStretchStartMs = 1000"
definition kStretchHoldMs :: u32 where "kStretchHoldMs = 8000"
definition kCoarseStepMs :: u32 where "kCoarseStepMs = 500"
definition kFineStepMs :: u32 where "kFineStepMs = 100"

definition kRtcMagic :: u32 where "kRtcMagic = 0xC0FFEE42"

subsection \<open>Data\<close>

text \<open>\<open>struct RtcState\<close>, field for field.\<close>

record RtcState =
  magic :: u32
  bootCount :: u32
  phase :: u32
  coarseIntervalMs :: u32
  coarseLastGoodMs :: u32
  coarseFailMs :: u32
  fineIntervalMs :: u32
  fineLastGoodMs :: u32
  fineFailMs :: u32
  finalLastGoodMs :: u32
  finalFailMs :: u32

text \<open>
  \<open>enum class Phase : uint32_t\<close>. The record stores the phase as a plain
  \<open>uint32_t\<close> and the code casts it back with \<open>static_cast\<close>, which keeps any
  value, also one that is no enumerator; so the enumerators are constants of type
  \<open>u32\<close> and a stored phase may be any word.
\<close>

definition FeedWarmup :: u32 where "FeedWarmup = 0"
definition ResetTest1 :: u32 where "ResetTest1 = 1"
definition ResetTest2 :: u32 where "ResetTest2 = 2"
definition Disabled30s :: u32 where "Disabled30s = 3"
definition FeedAfterOn :: u32 where "FeedAfterOn = 4"
definition StretchCoarse :: u32 where "StretchCoarse = 5"
definition StretchFine :: u32 where "StretchFine = 6"
definition Result :: u32 where "Result = 7"

text \<open>The reset causes that \<open>resetReasonToString\<close> tells apart.\<close>

datatype esp_reset_reason_t =
    ESP_RST_UNKNOWN
  | ESP_RST_POWERON
  | ESP_RST_EXT
  | ESP_RST_SW
  | ESP_RST_PANIC
  | ESP_RST_INT_WDT
  | ESP_RST_TASK_WDT
  | ESP_RST_WDT
  | ESP_RST_DEEPSLEEP
  | ESP_RST_BROWNOUT
  | ESP_RST_SDIO

text \<open>\<open>esp_err_t\<close> is an \<open>int\<close>; the sketch only compares it with \<open>ESP_OK\<close>.\<close>

type_synonym esp_err_t = int

definition ESP_OK :: esp_err_t where "ESP_OK = 0"

text \<open>
  What one boot gets from the platform: the cause of the reset that started it, the
  value the \<open>k\<close>-th call of \<open>millis()\<close> returns and the value the \<open>k\<close>-th call of
  \<open>esp_task_wdt_reset()\<close> returns. Nothing is assumed about the clock.
\<close>

record env =
  reset_reason :: esp_reset_reason_t
  millis_at :: "nat \<Rightarrow> u32"
  wdt_reset_at :: "nat \<Rightarrow> esp_err_t"

text \<open>
  The variables of the program: \<open>gRtc\<close>, the two runtime counters, the function-local
  statics of \<open>stretchStepLogic\<close> and of the \<open>Result\<close> branch of \<open>loop\<close>, and how
  many times the two platform calls have been made in this boot.
\<close>

record machine =
  gRtc :: RtcState
  gLastFeedMs :: u32
  gFeedCount :: u32
  intervalStartMs :: u32
  lastPrintedInterval :: u32
  lastHeartbeatMs :: u32
  doneFlag :: bool
  millisCalls :: nat
  wdtResetCalls :: nat

text \<open>
  RAM at the start of a boot: every variable at its initialiser, \<open>gRtc\<close> as the last
  boot left it (\<open>RTC_NOINIT_ATTR\<close>).
\<close>

definition power_up :: "RtcState \<Rightarrow> machine" where
  "power_up r =
     \<lparr>gRtc = r, gLastFeedMs = 0, gFeedCount = 0, intervalStartMs = 0,
      lastPrintedInterval = 0, lastHeartbeatMs = 0, doneFlag = False,
      millisCalls = 0, wdtResetCalls = 0\<rparr>"

subsection \<open>Platform calls\<close>

definition millis :: "env \<Rightarrow> machine \<Rightarrow> u32 \<times> machine" where
  "millis e s = (millis_at e (millisCalls s), s\<lparr>millisCalls := Suc (millisCalls s)\<rparr>)"

definition esp_task_wdt_reset :: "env \<Rightarrow> machine \<Rightarrow> esp_err_t \<times> machine" where
  "esp_task_wdt_reset e s =
     (wdt_reset_at e (wdtResetCalls s), s\<lparr>wdtResetCalls := Suc (wdtResetCalls s)\<rparr>)"

subsection \<open>The functions of the sketch\<close>

definition rtcInitIfNeeded :: "RtcState \<Rightarrow> RtcState" where
  "rtcInitIfNeeded r =
     (if magic r \<noteq> kRtcMagic then
        r\<lparr>magic := kRtcMagic,
          bootCount := 0,
          phase := FeedWarmup,
          coarseIntervalMs := kStretchStartMs,
          coarseLastGoodMs := 0,
          coarseFailMs := 0,
          fineIntervalMs := 0,
          fineLastGoodMs := 0,
          fineFailMs := 0,
          finalLastGoodMs := 0,
          finalFailMs := 0\<rparr>
      else r)"

definition wdtFeedIfDue :: "env \<Rightarrow> u32 \<Rightarrow> machine \<Rightarrow> machine" where
  "wdtFeedIfDue e intervalMs s =
     (let (now, s1) = millis e s in
      if now - gLastFeedMs s1 < intervalMs then s1
      else
        let (err, s2) = esp_task_wdt_reset e s1;
            s3 = (if err = ESP_OK then s2\<lparr>gFeedCount := gFeedCount s2 + 1\<rparr> else s2)
        in s3\<lparr>gLastFeedMs := now\<rparr>)"

definition resetCountersForPhase :: "env \<Rightarrow> machine \<Rightarrow> machine" where
  "resetCountersForPhase e s =
     (let s1 = s\<lparr>gFeedCount := 0\<rparr>;
          (t, s2) = millis e s1
      in s2\<lparr>gLastFeedMs := t\<rparr>)"

definition advancePhaseOnWdtReset :: "esp_reset_reason_t \<Rightarrow> RtcState \<Rightarrow> RtcState" where
  "advancePhaseOnWdtReset reason r =
     (if reason \<noteq> ESP_RST_TASK_WDT then r
      else if phase r = ResetTest1 then r\<lparr>phase := ResetTest2\<rparr>
      else if phase r = ResetTest2 then r\<lparr>phase := Disabled30s\<rparr>
      else if phase r = StretchCoarse then
        (let r1 = r\<lparr>coarseFailMs := coarseIntervalMs r\<rparr>;
             r2 = r1\<lparr>coarseLastGoodMs :=
                       (if coarseIntervalMs r1 > kCoarseStepMs
                        then coarseIntervalMs r1 - kCoarseStepMs else 0)\<rparr>;
             r3 = r2\<lparr>fineIntervalMs := coarseLastGoodMs r2\<rparr>;
             r4 = r3\<lparr>fineLastGoodMs := 0\<rparr>;
             r5 = r4\<lparr>fineFailMs := 0\<rparr>
         in r5\<lparr>phase := StretchFine\<rparr>)
      else if phase r = StretchFine then
        (let r1 = r\<lparr>fineFailMs := fineIntervalMs r\<rparr>;
             r2 = r1\<lparr>fineLastGoodMs :=
                       (if fineIntervalMs r1 > kFineStepMs
                        then fineIntervalMs r1 - kFineStepMs else 0)\<rparr>;
             r3 = r2\<lparr>finalLastGoodMs := fineLastGoodMs r2\<rparr>;
             r4 = r3\<lparr>finalFailMs := fineFailMs r3\<rparr>
         in r4\<lparr>phase := Result\<rparr>)
      else r)"

text \<open>
  \<open>hangUntilReset\<close> is \<open>while (true) {}\<close>: it never returns. Not returning is the
  value \<open>None\<close>.
\<close>

partial_function (option) hangUntilReset :: "machine \<Rightarrow> machine option" where
  "hangUntilReset s = hangUntilReset s"

text \<open>
  The busy-wait of \<open>runDisableWindow\<close>. Its only variables are the locals \<open>start\<close>
  and \<open>lastPrint\<close> and the clock, which it reads twice per round; \<open>n\<close> is the number
  of \<open>millis()\<close> calls made so far, and the result is that number when the loop ends.
  Under a clock that never moves 30000 ms away from \<open>start\<close> it does not return.
\<close>

partial_function (option) disableWait :: "env \<Rightarrow> u32 \<Rightarrow> u32 \<Rightarrow> nat \<Rightarrow> nat option" where
  "disableWait e start lastPrint n =
     (if millis_at e n - start < kDisableWindowMs then
        disableWait e start
          (if millis_at e (Suc n) - start - lastPrint \<ge> kStatusPrintIntervalMs
           then millis_at e (Suc n) - start else lastPrint)
          (Suc (Suc n))
      else Some (Suc n))"

definition runDisableWindow :: "env \<Rightarrow> machine \<Rightarrow> machine option" where
  "runDisableWindow e s =
     (let (start, s1) = millis e s in
      case disableWait e start 0 (millisCalls s1) of
        None \<Rightarrow> None
      | Some n \<Rightarrow> Some (s1\<lparr>millisCalls := n\<rparr>))"

text \<open>
  \<open>stretchStepLogic\<close> takes the interval by reference; nothing else in its body
  touches \<open>gRtc\<close>, so the model takes the interval's value and returns the new one, and
  the caller stores it back into the field it passed. \<open>heldStart\<close> is the statement
  that arms the hold timer, \<open>heldMs\<close> the local of that name.
\<close>

definition heldStart :: "env \<Rightarrow> machine \<Rightarrow> machine" where
  "heldStart e s =
     (if intervalStartMs s = 0 then
        (let (t, s1) = millis e s in s1\<lparr>intervalStartMs := t\<rparr>)
      else s)"

definition heldMs :: "env \<Rightarrow> machine \<Rightarrow> u32" where
  "heldMs e s = fst (millis e s) - intervalStartMs s"

definition heartbeat :: "env \<Rightarrow> machine \<Rightarrow> machine" where
  "heartbeat e s =
     (let (t, s1) = millis e s in
      if t - lastHeartbeatMs s1 \<ge> kStatusPrintIntervalMs then
        (let (t2, s2) = millis e s1 in s2\<lparr>lastHeartbeatMs := t2\<rparr>)
      else s1)"

definition stretchStepLogic :: "env \<Rightarrow> u32 \<Rightarrow> u32 \<Rightarrow> machine \<Rightarrow> u32 \<times> machine" where
  "stretchStepLogic e intervalMs stepMs s =
     (let s1 = wdtFeedIfDue e intervalMs s;
          s2 = heldStart e s1;
          s3 = (if intervalMs \<noteq> lastPrintedInterval s2
                then s2\<lparr>lastPrintedInterval := intervalMs\<rparr> else s2);
          held = heldMs e s3;
          s4 = snd (millis e s3);
          (intervalMs', s5) =
             (if held \<ge> kStretchHoldMs
              then (intervalMs + stepMs, s4\<lparr>intervalStartMs := 0\<rparr>)
              else (intervalMs, s4))
      in (intervalMs', heartbeat e s5))"

definition setPhase :: "u32 \<Rightarrow> machine \<Rightarrow> machine" where
  "setPhase p s = s\<lparr>gRtc := (gRtc s)\<lparr>phase := p\<rparr>\<rparr>"

definition setup_sketch :: "env \<Rightarrow> machine \<Rightarrow> machine" where
  "setup_sketch e s =
     (let s1 = s\<lparr>gRtc := rtcInitIfNeeded (gRtc s)\<rparr>;
          s2 = s1\<lparr>gRtc := (gRtc s1)\<lparr>bootCount := bootCount (gRtc s1) + 1\<rparr>\<rparr>;
          s3 = s2\<lparr>gRtc := advancePhaseOnWdtReset (reset_reason e) (gRtc s2)\<rparr>
      in resetCountersForPhase e s3)"

text \<open>
  One pass through \<open>loop()\<close>. The \<open>switch\<close> compares the stored word with the
  enumerators in turn; the last branch is its \<open>default\<close>.
\<close>

definition loop :: "env \<Rightarrow> machine \<Rightarrow> machine option" where
  "loop e s =
     (if phase (gRtc s) = FeedWarmup then
        (let s1 = wdtFeedIfDue e kFeedIntervalMs s in
         if gFeedCount s1 \<ge> kMinFeedCount
         then Some (resetCountersForPhase e (setPhase ResetTest1 s1))
         else Some s1)
      else if phase (gRtc s) = ResetTest1 then hangUntilReset s
      else if phase (gRtc s) = ResetTest2 then hangUntilReset s
      else if phase (gRtc s) = Disabled30s then
        (case runDisableWindow e s of
           None \<Rightarrow> None
         | Some s1 \<Rightarrow> Some (resetCountersForPhase e (setPhase FeedAfterOn s1)))
      else if phase (gRtc s) = FeedAfterOn then
        (let s1 = wdtFeedIfDue e kFeedIntervalMs s in
         if gFeedCount s1 \<ge> kMinFeedCount
         then
           (let s2 = setPhase StretchCoarse s1;
                s3 = s2\<lparr>gRtc := (gRtc s2)
                        \<lparr>coarseIntervalMs := kStretchStartMs,
                         coarseLastGoodMs := 0,
                         coarseFailMs := 0,
                         fineIntervalMs := 0,
                         fineLastGoodMs := 0,
                         fineFailMs := 0,
                         finalLastGoodMs := 0,
                         finalFailMs := 0\<rparr>\<rparr>
            in Some (resetCountersForPhase e s3))
         else Some s1)
      else if phase (gRtc s) = StretchCoarse then
        (let (i, s1) = stretchStepLogic e (coarseIntervalMs (gRtc s)) kCoarseStepMs s
         in Some (s1\<lparr>gRtc := (gRtc s1)\<lparr>coarseIntervalMs := i\<rparr>\<rparr>))
      else if phase (gRtc s) = StretchFine then
        (let s0 = (if fineIntervalMs (gRtc s) = 0
                   then s\<lparr>gRtc := (gRtc s)\<lparr>fineIntervalMs := coarseLastGoodMs (gRtc s)\<rparr>\<rparr>
                   else s);
             (i, s1) = stretchStepLogic e (fineIntervalMs (gRtc s0)) kFineStepMs s0
         in Some (s1\<lparr>gRtc := (gRtc s1)\<lparr>fineIntervalMs := i\<rparr>\<rparr>))
      else if phase (gRtc s) = Result then Some (s\<lparr>doneFlag := True\<rparr>)
      else Some (resetCountersForPhase e (setPhase FeedWarmup s)))"

text \<open>
  The Arduino core calls \<open>setup()\<close> (here \<open>setup_sketch\<close>) once and then \<open>loop()\<close> for ever. \<open>run_loop e n s\<close>
  is the machine after \<open>n\<close> passes, or where it stopped returning if a pass hangs before
  that: the state a reset at that moment finds. \<open>boot e n r\<close> is the record that a boot
  started on \<open>r\<close> leaves to the next one when the reset comes after \<open>n\<close> passes, and
  \<open>boots\<close> chains boots, the first of the list first.
\<close>

fun run_loop :: "env \<Rightarrow> nat \<Rightarrow> machine \<Rightarrow> machine" where
  "run_loop e 0 s = s"
| "run_loop e (Suc n) s = (case loop e s of None \<Rightarrow> s | Some s' \<Rightarrow> run_loop e n s')"

definition boot :: "env \<Rightarrow> nat \<Rightarrow> RtcState \<Rightarrow> RtcState" where
  "boot e n r = gRtc (run_loop e n (setup_sketch e (power_up r)))"

fun boots :: "(env \<times> nat) list \<Rightarrow> RtcState \<Rightarrow> RtcState" where
  "boots [] r = r"
| "boots ((e, n) # bs) r = boots bs (boot e n r)"

subsection \<open>Sample inputs\<close>

text \<open>
  Concrete records, clocks and platforms on which the theorems below are run.
  \<open>rtc_garbage\<close> is RTC memory after power loss (no valid marker); \<open>rtc_coarse\<close> is a
  record in the middle of the coarse search. Under \<open>clock_step d\<close> every call of
  \<open>millis()\<close> reads \<open>d\<close> ms later than the one before, starting at 250 ms.
  \<open>env_steady\<close> is a platform whose feeds succeed, \<open>env_feed_fails\<close> one whose feeds
  all fail, \<open>env_slow\<close> one whose clock moves a whole hold time between two readings.
\<close>

definition rtc_garbage :: RtcState where
  "rtc_garbage =
     \<lparr>magic = 0, bootCount = 77, phase = 9,
      coarseIntervalMs = 21, coarseLastGoodMs = 22, coarseFailMs = 23,
      fineIntervalMs = 24, fineLastGoodMs = 25, fineFailMs = 26,
      finalLastGoodMs = 27, finalFailMs = 28\<rparr>"

definition rtc_coarse :: RtcState where
  "rtc_coarse =
     \<lparr>magic = 0xC0FFEE42, bootCount = 9, phase = 5,
      coarseIntervalMs = 5500, coarseLastGoodMs = 11, coarseFailMs = 12,
      fineIntervalMs = 13, fineLastGoodMs = 14, fineFailMs = 15,
      finalLastGoodMs = 16, finalFailMs = 17\<rparr>"

definition rtc_fine :: RtcState where
  "rtc_fine = rtc_coarse\<lparr>phase := 6, fineIntervalMs := 5300\<rparr>"

definition clock_step :: "u32 \<Rightarrow> nat \<Rightarrow> u32" where
  "clock_step d k = 250 + d * of_nat k"

definition feed_ok :: "nat \<Rightarrow> esp_err_t" where
  "feed_ok k = 0"


definition env_steady :: "esp_reset_reason_t \<Rightarrow> env" where
  "env_steady reason =
     \<lparr>reset_reason = reason, millis_at = clock_step 1000, wdt_reset_at = feed_ok\<rparr>"

definition env_slow :: env where
  "env_slow =
     \<lparr>reset_reason = ESP_RST_EXT, millis_at = clock_step 8000, wdt_reset_at = feed_ok\<rparr>"



definition rtc_seeded :: RtcState where
  "rtc_seeded = rtc_coarse\<lparr>coarseIntervalMs := 1000\<rparr>"

definition coarse_top :: machine where
  "coarse_top = power_up (rtc_coarse\<lparr>coarseIntervalMs := 4294967000\<rparr>)"

text \<open>
  \<open>armed_coarse\<close> is \<open>fresh_coarse\<close>, a boot that starts in the coarse search, one
  pass later under \<open>env_steady\<close>: the hold timer is armed. Under \<open>clock_wrap\<close> the
  clock passes through 0 at its second reading (the 32-bit millisecond counter wraps
  after 49.7 days).
\<close>

definition fresh_coarse :: machine where
  "fresh_coarse = power_up rtc_coarse"

definition armed_coarse :: machine where
  "armed_coarse = run_loop (env_steady ESP_RST_EXT) 1 (power_up rtc_coarse)"

definition clock_wrap :: "nat \<Rightarrow> u32" where
  "clock_wrap k = 1000 * of_nat k - 1000"

definition env_wrap :: env where
  "env_wrap = \<lparr>reset_reason = ESP_RST_EXT, millis_at = clock_wrap, wdt_reset_at = feed_ok\<rparr>"

subsection \<open>An invariant of the warmup\<close>

text \<open>At the top of a pass in \<open>FeedWarmup\<close> fewer than six feeds have been counted.\<close>

definition warm_inv :: "machine \<Rightarrow> bool" where
  "warm_inv s \<longleftrightarrow> (phase (gRtc s) = FeedWarmup \<longrightarrow> gFeedCount s < 6)"

section \<open>Basic facts\<close>

lemmas Phase_defs =
  FeedWarmup_def ResetTest1_def ResetTest2_def Disabled30s_def
  FeedAfterOn_def StretchCoarse_def StretchFine_def Result_def

subsection \<open>The hang\<close>

lemma hangUntilReset_never_returns: "hangUntilReset s = Some s' \<Longrightarrow> False"
  by (rule hangUntilReset.raw_induct [where P = "\<lambda>_ _. False"]) auto

lemma hangUntilReset_None [simp, code]: "hangUntilReset s = None"
  using hangUntilReset_never_returns [of s] by (cases "hangUntilReset s") auto

declare disableWait.simps [code]

subsection \<open>Saturating subtraction on 32-bit words\<close>

lemma u32_sub_gt: "k < x \<Longrightarrow> uint (x - k :: u32) = max 0 (uint x - uint k)"
  by (auto simp: word_less_def uint_sub_if' max_def)

lemma u32_sub_le: "\<not> k < x \<Longrightarrow> max 0 (uint (x :: u32) - uint (k :: u32)) = 0"
  by (auto simp: word_less_def max_def)

subsection \<open>What each function leaves alone\<close>

lemma gRtc_millis [simp]: "gRtc (snd (millis e s)) = gRtc s"
  by (simp add: millis_def)

lemma wdtFeedIfDue_gRtc [simp]: "gRtc (wdtFeedIfDue e i s) = gRtc s"
  by (simp add: wdtFeedIfDue_def millis_def esp_task_wdt_reset_def Let_def)

lemma wdtFeedIfDue_gFeedCount:
  "gFeedCount (wdtFeedIfDue e i s) = gFeedCount s
   \<or> gFeedCount (wdtFeedIfDue e i s) = gFeedCount s + 1"
  by (simp add: wdtFeedIfDue_def millis_def esp_task_wdt_reset_def Let_def)

lemma resetCountersForPhase_gRtc [simp]: "gRtc (resetCountersForPhase e s) = gRtc s"
  by (simp add: resetCountersForPhase_def millis_def Let_def)

lemma resetCountersForPhase_gFeedCount [simp]: "gFeedCount (resetCountersForPhase e s) = 0"
  by (simp add: resetCountersForPhase_def millis_def Let_def)

lemma resetCountersForPhase_gLastFeedMs [simp]:
  "gLastFeedMs (resetCountersForPhase e s) = millis_at e (millisCalls s)"
  by (simp add: resetCountersForPhase_def millis_def Let_def)

lemma setPhase_gRtc [simp]: "gRtc (setPhase p s) = (gRtc s)\<lparr>phase := p\<rparr>"
  by (simp add: setPhase_def)

lemma setPhase_millisCalls [simp]: "millisCalls (setPhase p s) = millisCalls s"
  by (simp add: setPhase_def)

lemma heldStart_gRtc [simp]: "gRtc (heldStart e s) = gRtc s"
  by (simp add: heldStart_def millis_def Let_def)

lemma heartbeat_gRtc [simp]: "gRtc (heartbeat e s) = gRtc s"
  by (simp add: heartbeat_def millis_def Let_def)

lemma heldMs_lastPrinted [simp]: "heldMs e (s\<lparr>lastPrintedInterval := v\<rparr>) = heldMs e s"
  by (simp add: heldMs_def millis_def)

lemma stretchStepLogic_gRtc [simp]: "gRtc (snd (stretchStepLogic e i st s)) = gRtc s"
  by (simp add: stretchStepLogic_def Let_def millis_def)

lemma stretchStepLogic_fst:
  "fst (stretchStepLogic e i st s) =
     (if kStretchHoldMs \<le> heldMs e (heldStart e (wdtFeedIfDue e i s)) then i + st else i)"
  by (simp add: stretchStepLogic_def Let_def)

lemma runDisableWindow_gRtc: "runDisableWindow e s = Some s1 \<Longrightarrow> gRtc s1 = gRtc s"
  by (auto simp: runDisableWindow_def millis_def Let_def split: option.splits)

subsection \<open>One pass of the loop, by phase\<close>

lemma loop_FeedWarmup:
  "phase (gRtc s) = FeedWarmup \<Longrightarrow>
   loop e s = (if kMinFeedCount \<le> gFeedCount (wdtFeedIfDue e kFeedIntervalMs s)
         then Some (resetCountersForPhase e (setPhase ResetTest1 (wdtFeedIfDue e kFeedIntervalMs s)))
         else Some (wdtFeedIfDue e kFeedIntervalMs s))"
  by (simp add: loop_def Let_def)

lemma loop_StretchCoarse:
  "phase (gRtc s) = StretchCoarse \<Longrightarrow>
   loop e s = Some ((snd (stretchStepLogic e (coarseIntervalMs (gRtc s)) kCoarseStepMs s))
        \<lparr>gRtc := (gRtc s)\<lparr>coarseIntervalMs :=
            fst (stretchStepLogic e (coarseIntervalMs (gRtc s)) kCoarseStepMs s)\<rparr>\<rparr>)"
  by (simp add: loop_def Phase_defs split_beta)

lemma loop_hangs:
  "phase (gRtc s) = ResetTest1 \<or> phase (gRtc s) = ResetTest2 \<Longrightarrow> loop e s = None"
  by (auto simp: loop_def Phase_defs)

lemma run_loop_hangs: "loop e s = None \<Longrightarrow> run_loop e n s = s"
  by (cases n) auto

lemma boot_hangs_at_once:
  "loop e (setup_sketch e (power_up r)) = None \<Longrightarrow>
   boot e n r = gRtc (setup_sketch e (power_up r))"
  by (simp add: boot_def run_loop_hangs)

subsection \<open>The marker and the boot counter are written by \<open>setup\<close> only\<close>

lemma loop_magic_bootCount:
  assumes "loop e s = Some s'"
  shows "magic (gRtc s') = magic (gRtc s) \<and> bootCount (gRtc s') = bootCount (gRtc s)"
  using assms
  by (auto simp: loop_def Let_def split_beta dest: runDisableWindow_gRtc
           split: if_splits option.splits)

lemma run_loop_magic_bootCount:
  "magic (gRtc (run_loop e n s)) = magic (gRtc s)
   \<and> bootCount (gRtc (run_loop e n s)) = bootCount (gRtc s)"
  by (induction n arbitrary: s) (auto simp: loop_magic_bootCount split: option.splits)

lemma advance_magic_bootCount [simp]:
  "magic (advancePhaseOnWdtReset reason r) = magic r"
  "bootCount (advancePhaseOnWdtReset reason r) = bootCount r"
  by (simp_all add: advancePhaseOnWdtReset_def Let_def)

lemma setup_magic_bootCount:
  "magic (gRtc (setup_sketch e s)) = kRtcMagic"
  "bootCount (gRtc (setup_sketch e s)) =
     (if magic (gRtc s) = kRtcMagic then bootCount (gRtc s) + 1 else 1)"
  by (simp_all add: setup_sketch_def Let_def rtcInitIfNeeded_def)

lemma boot_magic_bootCount:
  "magic (boot e n r) = kRtcMagic"
  "bootCount (boot e n r) = (if magic r = kRtcMagic then bootCount r + 1 else 1)"
  by (simp_all add: boot_def run_loop_magic_bootCount setup_magic_bootCount power_up_def)

lemma boots_append: "boots (bs @ cs) r = boots cs (boots bs r)"
  by (induction bs arbitrary: r) auto

lemma boots_valid:
  "magic r = kRtcMagic \<Longrightarrow>
   bootCount (boots bs r) = bootCount r + of_nat (length bs) \<and> magic (boots bs r) = kRtcMagic"
  by (induction bs arbitrary: r) (auto simp: boot_magic_bootCount)

lemma boots_fresh:
  "magic r \<noteq> kRtcMagic \<Longrightarrow> bs \<noteq> [] \<Longrightarrow>
   bootCount (boots bs r) = of_nat (length bs) \<and> magic (boots bs r) = kRtcMagic"
  by (cases bs) (auto simp: boot_magic_bootCount boots_valid)

subsection \<open>The warmup invariant holds throughout a boot\<close>

lemma loop_warm_inv:
  assumes "loop e s = Some s'" and "warm_inv s"
  shows "warm_inv s'"
  using assms wdtFeedIfDue_gFeedCount [of e kFeedIntervalMs s]
  by (auto simp: warm_inv_def loop_def Let_def split_beta Phase_defs kMinFeedCount_def not_le
           split: if_splits option.splits)

lemma run_loop_warm_inv: "warm_inv s \<Longrightarrow> warm_inv (run_loop e n s)"
  by (induction n arbitrary: s) (auto simp: loop_warm_inv split: option.splits)

lemma setup_warm_inv: "warm_inv (setup_sketch e s)"
  by (simp add: warm_inv_def setup_sketch_def Let_def)

subsection \<open>The first boots on a fresh record\<close>

lemma loop_fresh_phases:
  assumes "loop e s = Some s'" and "phase (gRtc s) \<in> {FeedWarmup, ResetTest1}"
  shows "phase (gRtc s') \<in> {FeedWarmup, ResetTest1}"
  using assms by (auto simp: loop_def Let_def Phase_defs split: if_splits)

lemma run_loop_fresh_phases:
  "phase (gRtc s) \<in> {FeedWarmup, ResetTest1} \<Longrightarrow>
   phase (gRtc (run_loop e n s)) \<in> {FeedWarmup, ResetTest1}"
  by (induction n arbitrary: s) (auto dest: loop_fresh_phases split: option.splits)

lemma setup_fresh:
  "magic r \<noteq> kRtcMagic \<Longrightarrow> phase (gRtc (setup_sketch e (power_up r))) = FeedWarmup"
  by (simp add: setup_sketch_def Let_def rtcInitIfNeeded_def power_up_def
        advancePhaseOnWdtReset_def Phase_defs)

lemma setup_after_ResetTest1:
  assumes "magic r = kRtcMagic" and "phase r = ResetTest1"
      and "reset_reason e = ESP_RST_TASK_WDT"
  shows "gRtc (setup_sketch e (power_up r))
           = r\<lparr>bootCount := bootCount r + 1, phase := ResetTest2\<rparr>"
  using assms
  by (simp add: setup_sketch_def Let_def rtcInitIfNeeded_def power_up_def
        advancePhaseOnWdtReset_def Phase_defs)

lemma setup_after_ResetTest2:
  assumes "magic r = kRtcMagic" and "phase r = ResetTest2"
      and "reset_reason e = ESP_RST_TASK_WDT"
  shows "gRtc (setup_sketch e (power_up r))
           = r\<lparr>bootCount := bootCount r + 1, phase := Disabled30s\<rparr>"
  using assms
  by (simp add: setup_sketch_def Let_def rtcInitIfNeeded_def power_up_def
        advancePhaseOnWdtReset_def Phase_defs)

subsection \<open>The coarse search over several passes\<close>

lemma run_loop_StretchCoarse:
  "phase (gRtc s) = StretchCoarse \<Longrightarrow>
   phase (gRtc (run_loop e n s)) = StretchCoarse
   \<and> unat (coarseIntervalMs (gRtc (run_loop e n s))) \<le> unat (coarseIntervalMs (gRtc s)) + 500 * n
   \<and> (unat (coarseIntervalMs (gRtc s)) + 500 * n < 2 ^ 32 \<longrightarrow>
        unat (coarseIntervalMs (gRtc s)) \<le> unat (coarseIntervalMs (gRtc (run_loop e n s))))"
proof (induction n arbitrary: s)
  case 0
  then show ?case by simp
next
  case (Suc n)
  let ?s' = "(snd (stretchStepLogic e (coarseIntervalMs (gRtc s)) kCoarseStepMs s))
        \<lparr>gRtc := (gRtc s)\<lparr>coarseIntervalMs :=
            fst (stretchStepLogic e (coarseIntervalMs (gRtc s)) kCoarseStepMs s)\<rparr>\<rparr>"
  have l: "loop e s = Some ?s'"
    using Suc.prems by (rule loop_StretchCoarse)
  have p: "phase (gRtc ?s') = StretchCoarse"
    using Suc.prems by simp
  have c: "coarseIntervalMs (gRtc ?s') = coarseIntervalMs (gRtc s)
         \<or> coarseIntervalMs (gRtc ?s') = coarseIntervalMs (gRtc s) + 500"
    by (simp add: stretchStepLogic_fst kCoarseStepMs_def)
  have up: "unat (coarseIntervalMs (gRtc ?s')) \<le> unat (coarseIntervalMs (gRtc s)) + 500"
    using c unat_add_lem [of "coarseIntervalMs (gRtc s)" 500]
    by (auto simp: unat_word_ariths)
  have lo: "unat (coarseIntervalMs (gRtc s)) + 500 < 2 ^ 32 \<Longrightarrow>
            unat (coarseIntervalMs (gRtc s)) \<le> unat (coarseIntervalMs (gRtc ?s'))"
    using c unat_add_lem [of "coarseIntervalMs (gRtc s)" 500] by auto
  from Suc.IH [OF p] l up lo show ?case
    by (auto simp del: stretchStepLogic_gRtc)
qed

text \<open>
  Under \<open>env_slow\<close> every pass of a boot in \<open>StretchCoarse\<close> sees a full hold, so the
  interval goes up by 500 in each pass.
\<close>

lemma loop_env_slow:
  assumes "phase (gRtc s) = StretchCoarse" and "intervalStartMs s = 0"
  shows "\<exists>s'. loop env_slow s = Some s' \<and> phase (gRtc s') = StretchCoarse
           \<and> intervalStartMs s' = 0
           \<and> coarseIntervalMs (gRtc s') = coarseIntervalMs (gRtc s) + 500"
proof -
  have m: "millisCalls (wdtFeedIfDue e i s) = Suc (millisCalls s)" for e i
    by (simp add: wdtFeedIfDue_def millis_def esp_task_wdt_reset_def Let_def)
  have i: "intervalStartMs (wdtFeedIfDue e i s) = 0" for e i
    using assms(2) by (simp add: wdtFeedIfDue_def millis_def esp_task_wdt_reset_def Let_def)
  have h: "heldMs env_slow (heldStart env_slow (wdtFeedIfDue env_slow i s)) = 8000" for i
    by (simp add: heldMs_def heldStart_def millis_def m i env_slow_def clock_step_def Let_def)
  have z: "intervalStartMs (heartbeat e t) = intervalStartMs t" for e t
    by (simp add: heartbeat_def millis_def Let_def)
  have k: "intervalStartMs (snd (stretchStepLogic env_slow i st s)) = 0" for i st
    using h [of i] by (simp add: stretchStepLogic_def Let_def z kStretchHoldMs_def)
  from assms h k show ?thesis
    by (simp add: loop_StretchCoarse stretchStepLogic_fst kStretchHoldMs_def kCoarseStepMs_def)
qed

lemma run_loop_env_slow:
  "phase (gRtc s) = StretchCoarse \<Longrightarrow> intervalStartMs s = 0 \<Longrightarrow>
   coarseIntervalMs (gRtc (run_loop env_slow n s)) = coarseIntervalMs (gRtc s) + 500 * of_nat n"
proof (induction n arbitrary: s)
  case 0
  then show ?case by simp
next
  case (Suc n)
  from loop_env_slow [OF Suc.prems] obtain s' where
    s': "loop env_slow s = Some s'" "phase (gRtc s') = StretchCoarse" "intervalStartMs s' = 0"
        "coarseIntervalMs (gRtc s') = coarseIntervalMs (gRtc s) + 500"
    by blast
  from Suc.IH [OF s'(2) s'(3)] s'(1) s'(4) show ?case
    by (simp add: algebra_simps)
qed

subsection \<open>The hold timer of the coarse search\<close>

text \<open>
  A pass in \<open>StretchCoarse\<close> reads the clock once in \<open>wdtFeedIfDue\<close>, once more to
  arm the hold timer if \<open>intervalStartMs\<close> is 0, and then once for \<open>heldMs\<close>.
\<close>

lemma wdtFeedIfDue_millisCalls [simp]:
  "millisCalls (wdtFeedIfDue e i s) = Suc (millisCalls s)"
  by (simp add: wdtFeedIfDue_def millis_def esp_task_wdt_reset_def Let_def)

lemma wdtFeedIfDue_intervalStartMs [simp]:
  "intervalStartMs (wdtFeedIfDue e i s) = intervalStartMs s"
  by (simp add: wdtFeedIfDue_def millis_def esp_task_wdt_reset_def Let_def)

lemma heartbeat_intervalStartMs [simp]: "intervalStartMs (heartbeat e s) = intervalStartMs s"
  by (simp add: heartbeat_def millis_def Let_def)

lemma heldStart_intervalStartMs:
  "intervalStartMs (heldStart e s) =
     (if intervalStartMs s = 0 then millis_at e (millisCalls s) else intervalStartMs s)"
  by (simp add: heldStart_def millis_def Let_def)

lemma heldStart_millisCalls:
  "millisCalls (heldStart e s) =
     (if intervalStartMs s = 0 then Suc (millisCalls s) else millisCalls s)"
  by (simp add: heldStart_def millis_def Let_def)

lemma heldMs_after_feed:
  "heldMs e (heldStart e (wdtFeedIfDue e i s)) =
     (if intervalStartMs s = 0
      then millis_at e (millisCalls s + 2) - millis_at e (millisCalls s + 1)
      else millis_at e (millisCalls s + 1) - intervalStartMs s)"
  by (simp add: heldMs_def millis_def heldStart_intervalStartMs heldStart_millisCalls)

lemma stretchStepLogic_intervalStartMs:
  "intervalStartMs (snd (stretchStepLogic e i st s)) =
     (if kStretchHoldMs \<le> heldMs e (heldStart e (wdtFeedIfDue e i s)) then 0
      else if intervalStartMs s = 0 then millis_at e (millisCalls s + 1)
      else intervalStartMs s)"
  by (simp add: stretchStepLogic_def Let_def millis_def heldStart_intervalStartMs)

lemma coarse_pass:
  assumes "phase (gRtc s) = StretchCoarse"
  shows "\<exists>s'. loop e s = Some s' \<and> phase (gRtc s') = StretchCoarse
     \<and> (intervalStartMs s = 0 \<longrightarrow>
          (if millis_at e (millisCalls s + 2) - millis_at e (millisCalls s + 1) < 8000
           then coarseIntervalMs (gRtc s') = coarseIntervalMs (gRtc s)
              \<and> intervalStartMs s' = millis_at e (millisCalls s + 1)
           else coarseIntervalMs (gRtc s') = coarseIntervalMs (gRtc s) + 500
              \<and> intervalStartMs s' = 0))
     \<and> (intervalStartMs s \<noteq> 0 \<longrightarrow>
          (if millis_at e (millisCalls s + 1) - intervalStartMs s < 8000
           then coarseIntervalMs (gRtc s') = coarseIntervalMs (gRtc s)
              \<and> intervalStartMs s' = intervalStartMs s
           else coarseIntervalMs (gRtc s') = coarseIntervalMs (gRtc s) + 500
              \<and> intervalStartMs s' = 0))"
  using assms
  by (cases "intervalStartMs s = 0")
     (simp_all add: loop_StretchCoarse stretchStepLogic_fst stretchStepLogic_intervalStartMs
        heldMs_after_feed kStretchHoldMs_def kCoarseStepMs_def not_less)

lemma run_loop_Suc_end:
  "run_loop e (Suc n) s =
     (case loop e (run_loop e n s) of None \<Rightarrow> run_loop e n s | Some s' \<Rightarrow> s')"
proof (induction n arbitrary: s)
  case 0
  then show ?case by (simp split: option.splits)
next
  case (Suc n)
  show ?case
  proof (cases "loop e s")
    case None
    then show ?thesis by simp
  next
    case (Some s')
    have a: "run_loop e (Suc (Suc n)) s = run_loop e (Suc n) s'"
      using Some by simp
    have b: "run_loop e (Suc n) s = run_loop e n s'"
      using Some by simp
    show ?thesis unfolding a b by (rule Suc.IH)
  qed
qed

lemma coarse_quiet_run:
  assumes "phase (gRtc s) = StretchCoarse" and "intervalStartMs s \<noteq> 0"
      and "\<forall>j<n. millis_at e (millisCalls (run_loop e j s) + 1) - intervalStartMs s < 8000"
  shows "phase (gRtc (run_loop e n s)) = StretchCoarse
       \<and> coarseIntervalMs (gRtc (run_loop e n s)) = coarseIntervalMs (gRtc s)
       \<and> intervalStartMs (run_loop e n s) = intervalStartMs s"
  using assms
proof (induction n)
  case 0
  then show ?case by simp
next
  case (Suc n)
  let ?u = "run_loop e n s"
  from Suc have u: "phase (gRtc ?u) = StretchCoarse"
      "coarseIntervalMs (gRtc ?u) = coarseIntervalMs (gRtc s)"
      "intervalStartMs ?u = intervalStartMs s"
    by simp_all
  from Suc.prems(3) have q: "millis_at e (millisCalls ?u + 1) - intervalStartMs s < 8000"
    by simp
  from coarse_pass [OF u(1), of e] u q Suc.prems(2) show ?case
    by (auto simp: run_loop_Suc_end simp del: run_loop.simps)
qed

lemma coarse_step_after_quiet_run:
  assumes "phase (gRtc s) = StretchCoarse" and "intervalStartMs s \<noteq> 0"
      and "\<forall>j<n. millis_at e (millisCalls (run_loop e j s) + 1) - intervalStartMs s < 8000"
      and "8000 \<le> millis_at e (millisCalls (run_loop e n s) + 1) - intervalStartMs s"
  shows "coarseIntervalMs (gRtc (run_loop e (Suc n) s)) = coarseIntervalMs (gRtc s) + 500
       \<and> intervalStartMs (run_loop e (Suc n) s) = 0"
proof -
  let ?u = "run_loop e n s"
  from coarse_quiet_run [OF assms(1-3)] have u: "phase (gRtc ?u) = StretchCoarse"
      "coarseIntervalMs (gRtc ?u) = coarseIntervalMs (gRtc s)"
      "intervalStartMs ?u = intervalStartMs s"
    by simp_all
  from coarse_pass [OF u(1), of e] u assms(2) assms(4) show ?thesis
    by (auto simp: run_loop_Suc_end not_less simp del: run_loop.simps)
qed

section \<open>Phase advancement after a forced reset\<close>

text \<open>
  C1. When the last reset was a task-watchdog reset and the stored phase is
  \<open>StretchCoarse\<close>, \<open>advancePhaseOnWdtReset\<close> records the interval \<open>X\<close> that was
  being probed as \<open>coarseFailMs\<close>, sets \<open>coarseLastGoodMs\<close> to \<open>max(0, X - 500)\<close>,
  starts the fine search there (\<open>fineIntervalMs = coarseLastGoodMs\<close>, the two other
  fine fields 0) and moves to \<open>StretchFine\<close>; this holds for every 32-bit \<open>X\<close>.
\<close>

theorem coarse_to_fine_handoff:
  assumes "phase r = StretchCoarse"
  shows "coarseFailMs (advancePhaseOnWdtReset ESP_RST_TASK_WDT r) = coarseIntervalMs r
       \<and> uint (coarseLastGoodMs (advancePhaseOnWdtReset ESP_RST_TASK_WDT r))
           = max 0 (uint (coarseIntervalMs r) - 500)
       \<and> fineIntervalMs (advancePhaseOnWdtReset ESP_RST_TASK_WDT r)
           = coarseLastGoodMs (advancePhaseOnWdtReset ESP_RST_TASK_WDT r)
       \<and> fineLastGoodMs (advancePhaseOnWdtReset ESP_RST_TASK_WDT r) = 0
       \<and> fineFailMs (advancePhaseOnWdtReset ESP_RST_TASK_WDT r) = 0
       \<and> phase (advancePhaseOnWdtReset ESP_RST_TASK_WDT r) = StretchFine"
  using assms u32_sub_gt [of 500 "coarseIntervalMs r"] u32_sub_le [of 500 "coarseIntervalMs r"]
  by (simp add: advancePhaseOnWdtReset_def Phase_defs Let_def kCoarseStepMs_def)

theorem coarse_to_fine_handoff_witness:
  "phase rtc_coarse = StretchCoarse
   \<and> coarseIntervalMs rtc_coarse = 5500
   \<and> coarseFailMs (advancePhaseOnWdtReset ESP_RST_TASK_WDT rtc_coarse) = 5500
   \<and> coarseLastGoodMs (advancePhaseOnWdtReset ESP_RST_TASK_WDT rtc_coarse) = 5000
   \<and> fineIntervalMs (advancePhaseOnWdtReset ESP_RST_TASK_WDT rtc_coarse) = 5000
   \<and> fineLastGoodMs (advancePhaseOnWdtReset ESP_RST_TASK_WDT rtc_coarse) = 0
   \<and> fineFailMs (advancePhaseOnWdtReset ESP_RST_TASK_WDT rtc_coarse) = 0
   \<and> phase (advancePhaseOnWdtReset ESP_RST_TASK_WDT rtc_coarse) = StretchFine"
proof -
  have h: "phase rtc_coarse = StretchCoarse"
    by (simp add: rtc_coarse_def Phase_defs)
  have v: "coarseLastGoodMs (advancePhaseOnWdtReset ESP_RST_TASK_WDT rtc_coarse) = 5000"
    by (simp add: advancePhaseOnWdtReset_def Phase_defs Let_def kCoarseStepMs_def rtc_coarse_def)
  have x: "coarseIntervalMs rtc_coarse = 5500"
    by (simp add: rtc_coarse_def)
  from coarse_to_fine_handoff [OF h] h v x show ?thesis by simp
qed

text \<open>
  C2. When the last reset was a task-watchdog reset and the stored phase is
  \<open>StretchFine\<close>, \<open>advancePhaseOnWdtReset\<close> records the interval \<open>Y\<close> that was being
  probed as \<open>fineFailMs\<close>, sets \<open>fineLastGoodMs\<close> to \<open>max(0, Y - 100)\<close>, copies both
  into \<open>finalLastGoodMs\<close> and \<open>finalFailMs\<close> and moves to \<open>Result\<close>; this holds for
  every 32-bit \<open>Y\<close>.
\<close>

theorem fine_to_result_handoff:
  assumes "phase r = StretchFine"
  shows "fineFailMs (advancePhaseOnWdtReset ESP_RST_TASK_WDT r) = fineIntervalMs r
       \<and> uint (fineLastGoodMs (advancePhaseOnWdtReset ESP_RST_TASK_WDT r))
           = max 0 (uint (fineIntervalMs r) - 100)
       \<and> finalLastGoodMs (advancePhaseOnWdtReset ESP_RST_TASK_WDT r)
           = fineLastGoodMs (advancePhaseOnWdtReset ESP_RST_TASK_WDT r)
       \<and> finalFailMs (advancePhaseOnWdtReset ESP_RST_TASK_WDT r)
           = fineFailMs (advancePhaseOnWdtReset ESP_RST_TASK_WDT r)
       \<and> phase (advancePhaseOnWdtReset ESP_RST_TASK_WDT r) = Result"
  using assms u32_sub_gt [of 100 "fineIntervalMs r"] u32_sub_le [of 100 "fineIntervalMs r"]
  by (simp add: advancePhaseOnWdtReset_def Phase_defs Let_def kFineStepMs_def)

theorem fine_to_result_handoff_witness:
  "phase rtc_fine = StretchFine
   \<and> fineIntervalMs rtc_fine = 5300
   \<and> fineFailMs (advancePhaseOnWdtReset ESP_RST_TASK_WDT rtc_fine) = 5300
   \<and> fineLastGoodMs (advancePhaseOnWdtReset ESP_RST_TASK_WDT rtc_fine) = 5200
   \<and> finalLastGoodMs (advancePhaseOnWdtReset ESP_RST_TASK_WDT rtc_fine) = 5200
   \<and> finalFailMs (advancePhaseOnWdtReset ESP_RST_TASK_WDT rtc_fine) = 5300
   \<and> phase (advancePhaseOnWdtReset ESP_RST_TASK_WDT rtc_fine) = Result"
proof -
  have h: "phase rtc_fine = StretchFine"
    by (simp add: rtc_fine_def Phase_defs)
  have v: "fineLastGoodMs (advancePhaseOnWdtReset ESP_RST_TASK_WDT rtc_fine) = 5200"
    by (simp add: advancePhaseOnWdtReset_def Phase_defs Let_def kFineStepMs_def
          rtc_fine_def rtc_coarse_def)
  have y: "fineIntervalMs rtc_fine = 5300"
    by (simp add: rtc_fine_def)
  from fine_to_result_handoff [OF h] h v y show ?thesis by simp
qed

text \<open>
  C3. \<open>advancePhaseOnWdtReset\<close> returns the persistent record as it was (every field:
  marker, boot count, phase, both search triples, the final pair) whenever the reset
  cause is not the task watchdog, whatever the phase; and also after a task-watchdog
  reset when the stored phase is none of \<open>ResetTest1\<close>, \<open>ResetTest2\<close>,
  \<open>StretchCoarse\<close>, \<open>StretchFine\<close>.
\<close>

theorem advance_frame:
  assumes "reason \<noteq> ESP_RST_TASK_WDT
         \<or> phase r \<notin> {ResetTest1, ResetTest2, StretchCoarse, StretchFine}"
  shows "advancePhaseOnWdtReset reason r = r"
  using assms by (auto simp: advancePhaseOnWdtReset_def)

theorem advance_frame_witness:
  "ESP_RST_INT_WDT \<noteq> ESP_RST_TASK_WDT
   \<and> phase rtc_coarse = StretchCoarse
   \<and> advancePhaseOnWdtReset ESP_RST_INT_WDT rtc_coarse = rtc_coarse
   \<and> phase (rtc_coarse\<lparr>phase := FeedAfterOn\<rparr>)
        \<notin> {ResetTest1, ResetTest2, StretchCoarse, StretchFine}
   \<and> advancePhaseOnWdtReset ESP_RST_TASK_WDT (rtc_coarse\<lparr>phase := FeedAfterOn\<rparr>)
        = rtc_coarse\<lparr>phase := FeedAfterOn\<rparr>"
proof -
  have a: "ESP_RST_INT_WDT \<noteq> ESP_RST_TASK_WDT" by simp
  have b: "phase (rtc_coarse\<lparr>phase := FeedAfterOn\<rparr>)
             \<notin> {ResetTest1, ResetTest2, StretchCoarse, StretchFine}"
    by (simp add: Phase_defs)
  have c: "phase rtc_coarse = StretchCoarse"
    by (simp add: rtc_coarse_def Phase_defs)
  from a b c
    advance_frame [of ESP_RST_INT_WDT rtc_coarse]
    advance_frame [of ESP_RST_TASK_WDT "rtc_coarse\<lparr>phase := FeedAfterOn\<rparr>"]
  show ?thesis by simp
qed

section \<open>Initialisation of the persistent record\<close>

text \<open>
  C4. \<open>rtcInitIfNeeded\<close> is idempotent: on a record whose marker already is
  \<open>kRtcMagic\<close> it changes no field (the search bookkeeping is not zeroed again), and
  on any record calling it twice gives what calling it once gives.
\<close>

theorem rtcInitIfNeeded_idempotent:
  "rtcInitIfNeeded (rtcInitIfNeeded r) = rtcInitIfNeeded r
   \<and> (magic r = kRtcMagic \<longrightarrow> rtcInitIfNeeded r = r)"
  by (simp add: rtcInitIfNeeded_def)

theorem rtcInitIfNeeded_idempotent_witness:
  "magic rtc_coarse = kRtcMagic
   \<and> rtcInitIfNeeded rtc_coarse = rtc_coarse
   \<and> coarseIntervalMs (rtcInitIfNeeded rtc_coarse) = 5500
   \<and> rtcInitIfNeeded (rtcInitIfNeeded rtc_garbage) = rtcInitIfNeeded rtc_garbage"
proof -
  have m: "magic rtc_coarse = kRtcMagic"
    by (simp add: rtc_coarse_def kRtcMagic_def)
  have c: "coarseIntervalMs rtc_coarse = 5500"
    by (simp add: rtc_coarse_def)
  from m c rtcInitIfNeeded_idempotent [of rtc_coarse] rtcInitIfNeeded_idempotent [of rtc_garbage]
  show ?thesis by simp
qed

text \<open>
  C5 (as amended). \<open>setup\<close> increments \<open>bootCount\<close> exactly once per boot, after
  \<open>rtcInitIfNeeded\<close> has made the record valid, and nothing else writes it. Starting
  from a record without the marker, after \<open>k \<ge> 1\<close> consecutive boots, whatever their
  reset causes and however many passes of the loop each one ran, \<open>bootCount\<close> is \<open>k\<close>
  modulo \<open>2 ^ 32\<close>; so it equals \<open>k\<close> for every \<open>k < 2 ^ 32\<close>, and one more boot adds
  one (as a 32-bit value).
\<close>

theorem boot_counter_mod:
  assumes "magic r \<noteq> kRtcMagic" and "bs \<noteq> []"
  shows "bootCount (boots bs r) = of_nat (length bs)
       \<and> unat (bootCount (boots bs r)) = length bs mod 2 ^ 32
       \<and> (length bs < 2 ^ 32 \<longrightarrow> unat (bootCount (boots bs r)) = length bs)
       \<and> bootCount (boots (bs @ [(e, n)]) r) = bootCount (boots bs r) + 1"
proof -
  from boots_fresh [OF assms]
  have a: "bootCount (boots bs r) = of_nat (length bs)" and m: "magic (boots bs r) = kRtcMagic"
    by simp_all
  have "bootCount (boots (bs @ [(e, n)]) r) = bootCount (boots bs r) + 1"
    using m by (simp add: boots_append boot_magic_bootCount)
  with a show ?thesis by (simp add: unat_of_nat)
qed

theorem boot_counter_mod_witness:
  "magic rtc_garbage \<noteq> kRtcMagic
   \<and> [(env_steady ESP_RST_POWERON, 8), (env_steady ESP_RST_TASK_WDT, 2),
       (env_steady ESP_RST_EXT, 1::nat)] \<noteq> []
   \<and> length [(env_steady ESP_RST_POWERON, 8), (env_steady ESP_RST_TASK_WDT, 2),
       (env_steady ESP_RST_EXT, 1::nat)] < 2 ^ 32
   \<and> unat (bootCount (boots [(env_steady ESP_RST_POWERON, 8), (env_steady ESP_RST_TASK_WDT, 2),
        (env_steady ESP_RST_EXT, 1)] rtc_garbage)) = 3"
proof -
  have a: "magic rtc_garbage \<noteq> kRtcMagic" by code_simp
  from boot_counter_mod [OF a, of "[(env_steady ESP_RST_POWERON, 8),
        (env_steady ESP_RST_TASK_WDT, 2), (env_steady ESP_RST_EXT, 1)]"] a
  show ?thesis by simp
qed

text \<open>
  C5 as stated fails at \<open>k = 2 ^ 32\<close>: the counter is a \<open>uint32_t\<close>, and after
  4294967296 boots on a fresh record it reads 0.
\<close>

theorem boot_counter_wraps:
  "magic rtc_garbage \<noteq> kRtcMagic
   \<and> length (replicate 4294967296 (env_steady ESP_RST_TASK_WDT, 0::nat)) = 4294967296
   \<and> unat (bootCount (boots (replicate 4294967296 (env_steady ESP_RST_TASK_WDT, 0))
        rtc_garbage)) = 0"
proof -
  have m: "magic rtc_garbage \<noteq> kRtcMagic"
    by (simp add: rtc_garbage_def kRtcMagic_def)
  have n: "replicate 4294967296 (env_steady ESP_RST_TASK_WDT, 0::nat) \<noteq> []"
    by simp
  from boots_fresh [OF m n] m show ?thesis by simp
qed

section \<open>The main loop\<close>

text \<open>
  C8. When the stored phase is no enumerator of \<open>Phase\<close> (a value above 7), one pass
  through \<open>loop\<close> returns, with the phase set to \<open>FeedWarmup\<close> and nothing else in the
  record touched, the feed counter back at 0 and the last-feed timestamp at the
  current clock reading.
\<close>

theorem corrupt_phase_recovery:
  assumes "7 < phase (gRtc s)"
  shows "\<exists>s'. loop e s = Some s'
            \<and> phase (gRtc s') = FeedWarmup
            \<and> gRtc s' = (gRtc s)\<lparr>phase := FeedWarmup\<rparr>
            \<and> gFeedCount s' = 0
            \<and> gLastFeedMs s' = millis_at e (millisCalls s)"
  using assms
  by (auto simp: loop_def Phase_defs)

theorem corrupt_phase_recovery_witness:
  "7 < phase (gRtc ((power_up rtc_coarse)\<lparr>gRtc := rtc_coarse\<lparr>phase := 4000\<rparr>, gFeedCount := 3\<rparr>))
   \<and> (\<exists>s'. loop (env_steady ESP_RST_POWERON)
              ((power_up rtc_coarse)\<lparr>gRtc := rtc_coarse\<lparr>phase := 4000\<rparr>, gFeedCount := 3\<rparr>)
            = Some s'
          \<and> phase (gRtc s') = 0
          \<and> gFeedCount s' = 0
          \<and> gLastFeedMs s' = 250)"
proof -
  have h: "7 < phase (gRtc ((power_up rtc_coarse)
               \<lparr>gRtc := rtc_coarse\<lparr>phase := 4000\<rparr>, gFeedCount := 3\<rparr>))"
    by simp
  from corrupt_phase_recovery [OF h, of "env_steady ESP_RST_POWERON"] h
  show ?thesis
    by (auto simp: FeedWarmup_def env_steady_def clock_step_def power_up_def)
qed


text \<open>
  C6. In a boot, whatever record it started on, whatever the clock and the driver
  return and however many passes have run: at the top of a pass in \<open>FeedWarmup\<close> the
  feed counter is below 6, and the pass ends in \<open>ResetTest1\<close> exactly when its feed
  brings the counter to 6; otherwise the counter is still below 6 and the phase still
  \<open>FeedWarmup\<close>. The clock enters only through whether a feed is due.
\<close>

theorem warmup_exit_threshold:
  assumes "s = run_loop e n (setup_sketch e (power_up r))"
      and "phase (gRtc s) = FeedWarmup"
  shows "gFeedCount s < 6
       \<and> (\<exists>s'. loop e s = Some s'
            \<and> (phase (gRtc s') = ResetTest1
                 \<longleftrightarrow> gFeedCount (wdtFeedIfDue e 1000 s) = 6)
            \<and> (phase (gRtc s') = FeedWarmup
                 \<longleftrightarrow> gFeedCount (wdtFeedIfDue e 1000 s) < 6))"
proof -
  have "warm_inv s"
    unfolding assms(1) by (rule run_loop_warm_inv) (rule setup_warm_inv)
  with assms(2) have c: "gFeedCount s < 6"
    by (simp add: warm_inv_def)
  from c wdtFeedIfDue_gFeedCount [of e kFeedIntervalMs s]
  have d: "gFeedCount (wdtFeedIfDue e kFeedIntervalMs s) < 6
         \<or> gFeedCount (wdtFeedIfDue e kFeedIntervalMs s) = 6"
    using inc_le [of "gFeedCount s" 6] by (auto simp: order_le_less)
  have k: "kFeedIntervalMs = 1000"
    by (simp add: kFeedIntervalMs_def)
  from c d assms(2) show ?thesis
    unfolding k [symmetric]
    by (auto simp: loop_FeedWarmup kMinFeedCount_def Phase_defs not_le)
qed

theorem warmup_exit_threshold_witness:
  "phase (gRtc (run_loop (env_steady ESP_RST_POWERON) 5
        (setup_sketch (env_steady ESP_RST_POWERON) (power_up rtc_garbage)))) = FeedWarmup
   \<and> gFeedCount (run_loop (env_steady ESP_RST_POWERON) 5
        (setup_sketch (env_steady ESP_RST_POWERON) (power_up rtc_garbage))) = 5
   \<and> gFeedCount (wdtFeedIfDue (env_steady ESP_RST_POWERON) 1000
        (run_loop (env_steady ESP_RST_POWERON) 5
          (setup_sketch (env_steady ESP_RST_POWERON) (power_up rtc_garbage)))) = 6
   \<and> (\<exists>s'. loop (env_steady ESP_RST_POWERON)
          (run_loop (env_steady ESP_RST_POWERON) 5
            (setup_sketch (env_steady ESP_RST_POWERON) (power_up rtc_garbage))) = Some s'
        \<and> phase (gRtc s') = ResetTest1)"
proof -
  let ?e = "env_steady ESP_RST_POWERON"
  let ?s = "run_loop ?e 5 (setup_sketch ?e (power_up rtc_garbage))"
  have p: "phase (gRtc ?s) = FeedWarmup" by code_simp
  have c: "gFeedCount ?s = 5" by code_simp
  have f: "gFeedCount (wdtFeedIfDue ?e 1000 ?s) = 6" by code_simp
  from warmup_exit_threshold [OF refl p] p c f show ?thesis by auto
qed

text \<open>
  C7 (as amended). In \<open>StretchCoarse\<close> every pass of the loop returns and stays in
  \<open>StretchCoarse\<close>. A pass that finds the hold timer unarmed (\<open>intervalStartMs = 0\<close>:
  at boot and after every step) arms it with its clock reading \<open>t0\<close>. Once the timer
  is armed with a non-zero \<open>t0\<close>, \<open>coarseIntervalMs\<close> and the timer stay as they are
  on every pass whose clock reading is less than 8000 ms past \<open>t0\<close>, and on the first
  pass whose reading is at least 8000 ms past \<open>t0\<close> the interval goes up by 500, as a
  32-bit addition with no cap, and the timer is disarmed. Clock differences are taken
  modulo \<open>2 ^ 32\<close>, as the code takes them. As long as the interval plus 500 stays
  below \<open>2 ^ 32\<close> the step is exactly 500 and the interval never decreases, over any
  number of passes.
\<close>

theorem stretch_coarse_growth:
  assumes "phase (gRtc s) = StretchCoarse"
  shows "(\<exists>s'. loop e s = Some s' \<and> phase (gRtc s') = StretchCoarse
            \<and> (intervalStartMs s = 0 \<longrightarrow>
                 (if millis_at e (millisCalls s + 2) - millis_at e (millisCalls s + 1) < 8000
                  then coarseIntervalMs (gRtc s') = coarseIntervalMs (gRtc s)
                     \<and> intervalStartMs s' = millis_at e (millisCalls s + 1)
                  else coarseIntervalMs (gRtc s') = coarseIntervalMs (gRtc s) + 500
                     \<and> intervalStartMs s' = 0)))
       \<and> (intervalStartMs s \<noteq> 0
            \<and> (\<forall>j<n. millis_at e (millisCalls (run_loop e j s) + 1) - intervalStartMs s < 8000)
          \<longrightarrow> coarseIntervalMs (gRtc (run_loop e n s)) = coarseIntervalMs (gRtc s)
            \<and> intervalStartMs (run_loop e n s) = intervalStartMs s
            \<and> (8000 \<le> millis_at e (millisCalls (run_loop e n s) + 1) - intervalStartMs s
                \<longrightarrow> coarseIntervalMs (gRtc (run_loop e (Suc n) s)) = coarseIntervalMs (gRtc s) + 500
                  \<and> intervalStartMs (run_loop e (Suc n) s) = 0))
       \<and> (unat (coarseIntervalMs (gRtc s)) + 500 < 2 ^ 32
          \<longrightarrow> unat (coarseIntervalMs (gRtc s) + 500) = unat (coarseIntervalMs (gRtc s)) + 500)
       \<and> (\<forall>k. unat (coarseIntervalMs (gRtc s)) + 500 * k < 2 ^ 32
          \<longrightarrow> phase (gRtc (run_loop e k s)) = StretchCoarse
            \<and> unat (coarseIntervalMs (gRtc s))
                \<le> unat (coarseIntervalMs (gRtc (run_loop e k s))))"
proof -
  from coarse_pass [OF assms, of e]
  have a: "\<exists>s'. loop e s = Some s' \<and> phase (gRtc s') = StretchCoarse
            \<and> (intervalStartMs s = 0 \<longrightarrow>
                 (if millis_at e (millisCalls s + 2) - millis_at e (millisCalls s + 1) < 8000
                  then coarseIntervalMs (gRtc s') = coarseIntervalMs (gRtc s)
                     \<and> intervalStartMs s' = millis_at e (millisCalls s + 1)
                  else coarseIntervalMs (gRtc s') = coarseIntervalMs (gRtc s) + 500
                     \<and> intervalStartMs s' = 0))"
    by blast
  have b: "intervalStartMs s \<noteq> 0
            \<and> (\<forall>j<n. millis_at e (millisCalls (run_loop e j s) + 1) - intervalStartMs s < 8000)
          \<longrightarrow> coarseIntervalMs (gRtc (run_loop e n s)) = coarseIntervalMs (gRtc s)
            \<and> intervalStartMs (run_loop e n s) = intervalStartMs s
            \<and> (8000 \<le> millis_at e (millisCalls (run_loop e n s) + 1) - intervalStartMs s
                \<longrightarrow> coarseIntervalMs (gRtc (run_loop e (Suc n) s)) = coarseIntervalMs (gRtc s) + 500
                  \<and> intervalStartMs (run_loop e (Suc n) s) = 0)"
    using coarse_quiet_run [OF assms, of n e] coarse_step_after_quiet_run [OF assms, of n e]
    by blast
  have c: "unat (coarseIntervalMs (gRtc s)) + 500 < 2 ^ 32
          \<longrightarrow> unat (coarseIntervalMs (gRtc s) + 500) = unat (coarseIntervalMs (gRtc s)) + 500"
    using unat_add_lem [of "coarseIntervalMs (gRtc s)" 500] by simp
  have d: "\<forall>k. unat (coarseIntervalMs (gRtc s)) + 500 * k < 2 ^ 32
          \<longrightarrow> phase (gRtc (run_loop e k s)) = StretchCoarse
            \<and> unat (coarseIntervalMs (gRtc s))
                \<le> unat (coarseIntervalMs (gRtc (run_loop e k s)))"
    using run_loop_StretchCoarse [OF assms, of e] by blast
  from a b c d show ?thesis by (intro conjI)
qed

theorem stretch_coarse_growth_witness:
  "phase (gRtc fresh_coarse) = StretchCoarse
   \<and> intervalStartMs fresh_coarse = 0
   \<and> millis_at (env_steady ESP_RST_EXT) (millisCalls fresh_coarse + 1) = 1250
   \<and> millis_at (env_steady ESP_RST_EXT) (millisCalls fresh_coarse + 2) = 2250
   \<and> (\<exists>s'. loop (env_steady ESP_RST_EXT) fresh_coarse = Some s'
          \<and> coarseIntervalMs (gRtc s') = 5500 \<and> intervalStartMs s' = 1250)
   \<and> phase (gRtc armed_coarse) = StretchCoarse
   \<and> intervalStartMs armed_coarse = 1250
   \<and> millis_at (env_steady ESP_RST_EXT)
        (millisCalls (run_loop (env_steady ESP_RST_EXT) 0 armed_coarse) + 1) = 5250
   \<and> millis_at (env_steady ESP_RST_EXT)
        (millisCalls (run_loop (env_steady ESP_RST_EXT) 1 armed_coarse) + 1) = 9250
   \<and> coarseIntervalMs (gRtc (run_loop (env_steady ESP_RST_EXT) 1 armed_coarse)) = 5500
   \<and> coarseIntervalMs (gRtc (run_loop (env_steady ESP_RST_EXT) (Suc 1) armed_coarse)) = 6000
   \<and> intervalStartMs (run_loop (env_steady ESP_RST_EXT) (Suc 1) armed_coarse) = 0
   \<and> unat (coarseIntervalMs (gRtc fresh_coarse)) + 500 * 3 < 2 ^ 32
   \<and> unat (coarseIntervalMs (gRtc fresh_coarse))
        \<le> unat (coarseIntervalMs (gRtc (run_loop (env_steady ESP_RST_EXT) 3 fresh_coarse)))"
proof -
  let ?e = "env_steady ESP_RST_EXT"
  have p0: "phase (gRtc fresh_coarse) = StretchCoarse" by code_simp
  have i0: "intervalStartMs fresh_coarse = 0" by code_simp
  have c0: "coarseIntervalMs (gRtc fresh_coarse) = 5500" by code_simp
  have t0: "millis_at ?e (millisCalls fresh_coarse + 1) = 1250" by code_simp
  have r0: "millis_at ?e (millisCalls fresh_coarse + 2) = 2250" by code_simp
  have p1: "phase (gRtc armed_coarse) = StretchCoarse" by code_simp
  have i1: "intervalStartMs armed_coarse = 1250" by code_simp
  have c1: "coarseIntervalMs (gRtc armed_coarse) = 5500" by code_simp
  have q: "millis_at ?e (millisCalls (run_loop ?e 0 armed_coarse) + 1)
              - intervalStartMs armed_coarse < 8000"
    by code_simp
  have q1: "\<forall>j<1. millis_at ?e (millisCalls (run_loop ?e j armed_coarse) + 1)
              - intervalStartMs armed_coarse < 8000"
    using q by simp
  have r1: "millis_at ?e (millisCalls (run_loop ?e 1 armed_coarse) + 1) = 9250" by code_simp
  have r: "millis_at ?e (millisCalls (run_loop ?e 0 armed_coarse) + 1) = 5250" by code_simp
  from stretch_coarse_growth [OF p0, of ?e 0] stretch_coarse_growth [OF p1, of ?e 1]
       p0 i0 c0 t0 r0 p1 i1 c1 q1 r1 r
  show ?thesis by auto
qed

text \<open>
  C7 as stated fails where the 32-bit addition wraps: in \<open>StretchCoarse\<close> with the
  interval at 4294967000 and a full hold, one pass takes the interval down to 204.
  That interval is the one the search reaches from its start value 1000 after
  8589932 completed holds without a forced reset.
\<close>

theorem stretch_coarse_wraps:
  "phase (gRtc coarse_top) = StretchCoarse
   \<and> coarseIntervalMs (gRtc coarse_top) = 4294967000
   \<and> map_option (\<lambda>s'. coarseIntervalMs (gRtc s')) (loop env_slow coarse_top) = Some 204"
  by code_simp

lemma coarse_top_reachable:
  "coarseIntervalMs (boot env_slow 8589932 rtc_seeded) = 4294967000
   \<and> coarseIntervalMs (boot env_slow 8589933 rtc_seeded) = 204"
proof -
  let ?s = "setup_sketch env_slow (power_up rtc_seeded)"
  have p: "phase (gRtc ?s) = StretchCoarse" by code_simp
  have i: "intervalStartMs ?s = 0" by code_simp
  have c: "coarseIntervalMs (gRtc ?s) = 1000" by code_simp
  from run_loop_env_slow [OF p i, of 8589932] run_loop_env_slow [OF p i, of 8589933] c
  show ?thesis by (simp add: boot_def)
qed

text \<open>
  The hold law above is stated for a timer armed with a non-zero reading. Zero is
  also the value that stands for "not armed": when the clock reads exactly 0 at
  arming, the next pass arms the timer again, and the hold is counted from there. Here
  the clock reads 0 at the first arming and 9000 at the third pass, and the step comes
  only in the fourth pass.
\<close>

lemma stretch_coarse_zero_clock:
  "millis_at env_wrap 1 = 0
   \<and> intervalStartMs (run_loop env_wrap 1 (power_up rtc_coarse)) = 0
   \<and> intervalStartMs (run_loop env_wrap 2 (power_up rtc_coarse)) = 4000
   \<and> millis_at env_wrap (millisCalls (run_loop env_wrap 2 (power_up rtc_coarse)) + 1) = 9000
   \<and> coarseIntervalMs (gRtc (run_loop env_wrap 3 (power_up rtc_coarse))) = 5500
   \<and> coarseIntervalMs (gRtc (run_loop env_wrap 4 (power_up rtc_coarse))) = 6000"
  by code_simp




section \<open>Across boots\<close>

text \<open>
  C9. Start on a record without the marker. After \<open>setup\<close> of the first boot the
  phase is \<open>FeedWarmup\<close>, and that boot can only ever be in \<open>FeedWarmup\<close> or
  \<open>ResetTest1\<close>. If the reset that ends it comes in \<open>ResetTest1\<close> (where the loop
  hangs) and is reported as a task-watchdog reset, \<open>setup\<close> of the second boot moves
  to \<open>ResetTest2\<close> and changes nothing else in the record but the boot counter; the
  second boot hangs at once, so its reset finds \<open>ResetTest2\<close>; and if that reset is a
  task-watchdog reset too, \<open>setup\<close> of the third boot moves to \<open>Disabled30s\<close>.
\<close>

theorem reset_test_sequence:
  assumes "magic r0 \<noteq> kRtcMagic"
      and "phase (boot e1 n1 r0) = ResetTest1"
      and "reset_reason e2 = ESP_RST_TASK_WDT"
      and "reset_reason e3 = ESP_RST_TASK_WDT"
  shows "phase (gRtc (setup_sketch e1 (power_up r0))) = FeedWarmup
       \<and> (\<forall>k. phase (boot e1 k r0) \<in> {FeedWarmup, ResetTest1})
       \<and> loop e1 (run_loop e1 n1 (setup_sketch e1 (power_up r0))) = None
       \<and> gRtc (setup_sketch e2 (power_up (boot e1 n1 r0)))
           = (boot e1 n1 r0)\<lparr>bootCount := bootCount (boot e1 n1 r0) + 1, phase := ResetTest2\<rparr>
       \<and> loop e2 (setup_sketch e2 (power_up (boot e1 n1 r0))) = None
       \<and> phase (boot e2 n2 (boot e1 n1 r0)) = ResetTest2
       \<and> phase (gRtc (setup_sketch e3 (power_up (boot e2 n2 (boot e1 n1 r0))))) = Disabled30s"
proof -
  let ?r1 = "boot e1 n1 r0"
  let ?s2 = "setup_sketch e2 (power_up ?r1)"
  have a: "phase (gRtc (setup_sketch e1 (power_up r0))) = FeedWarmup"
    using assms(1) by (rule setup_fresh)
  have b: "phase (boot e1 k r0) \<in> {FeedWarmup, ResetTest1}" for k
    unfolding boot_def by (rule run_loop_fresh_phases) (simp add: a)
  have c: "loop e1 (run_loop e1 n1 (setup_sketch e1 (power_up r0))) = None"
    using assms(2) by (simp add: boot_def loop_hangs)
  have m1: "magic ?r1 = kRtcMagic"
    by (rule boot_magic_bootCount)
  have d: "gRtc ?s2 = ?r1\<lparr>bootCount := bootCount ?r1 + 1, phase := ResetTest2\<rparr>"
    using m1 assms(2) assms(3) by (rule setup_after_ResetTest1)
  have e: "loop e2 ?s2 = None"
    by (rule loop_hangs) (simp add: d)
  have f: "boot e2 n2 ?r1 = gRtc ?s2"
    using e by (rule boot_hangs_at_once)
  have g: "phase (boot e2 n2 ?r1) = ResetTest2"
    by (simp add: f d)
  have m2: "magic (boot e2 n2 ?r1) = kRtcMagic"
    by (rule boot_magic_bootCount)
  have h: "phase (gRtc (setup_sketch e3 (power_up (boot e2 n2 ?r1)))) = Disabled30s"
    by (simp add: setup_after_ResetTest2 [OF m2 g assms(4)])
  from a b c d e g h show ?thesis by blast
qed

theorem reset_test_sequence_witness:
  "magic rtc_garbage \<noteq> kRtcMagic
   \<and> phase (boot (env_steady ESP_RST_POWERON) 8 rtc_garbage) = ResetTest1
   \<and> reset_reason (env_steady ESP_RST_TASK_WDT) = ESP_RST_TASK_WDT
   \<and> phase (gRtc (setup_sketch (env_steady ESP_RST_POWERON) (power_up rtc_garbage)))
       = FeedWarmup
   \<and> phase (boot (env_steady ESP_RST_POWERON) 3 rtc_garbage) \<in> {FeedWarmup, ResetTest1}
   \<and> phase (boot (env_steady ESP_RST_TASK_WDT) 4
        (boot (env_steady ESP_RST_POWERON) 8 rtc_garbage)) = ResetTest2
   \<and> phase (gRtc (setup_sketch (env_steady ESP_RST_TASK_WDT) (power_up
        (boot (env_steady ESP_RST_TASK_WDT) 4
          (boot (env_steady ESP_RST_POWERON) 8 rtc_garbage))))) = Disabled30s"
proof -
  have a: "magic rtc_garbage \<noteq> kRtcMagic" by code_simp
  have b: "phase (boot (env_steady ESP_RST_POWERON) 8 rtc_garbage) = ResetTest1" by code_simp
  have c: "reset_reason (env_steady ESP_RST_TASK_WDT) = ESP_RST_TASK_WDT" by code_simp
  from reset_test_sequence [OF a b c c, of 4] a b c show ?thesis by blast
qed

end
